theory Spec2Isabelle
  imports Main
begin

section \<open>Python values and ordered dictionaries\<close>

text \<open>
  The documents the wrapper assembles are ordinary Python values. A \<open>dict\<close> keeps its keys
  in insertion order, so it is an association list; assigning to a key that is already
  present replaces the value and leaves the key where it was first inserted.
\<close>

datatype pyval =
    PNone
  | PInt int
  | PStr string
  | PList "pyval list"
  | PDict "(string \<times> pyval) list"

type_synonym pydict = "(string \<times> pyval) list"

text \<open>\<^verbatim>\<open>d[k] = v\<close>\<close>

fun setitem :: "'k \<Rightarrow> 'v \<Rightarrow> ('k \<times> 'v) list \<Rightarrow> ('k \<times> 'v) list" where
  "setitem k v [] = [(k, v)]"
| "setitem k v ((k', v') # d) =
     (if k' = k then (k', v) # d else (k', v') # setitem k v d)"

text \<open>\<^verbatim>\<open>d.update(items)\<close>: the items are assigned one after the other.\<close>

definition dict_update :: "('k \<times> 'v) list \<Rightarrow> ('k \<times> 'v) list \<Rightarrow> ('k \<times> 'v) list" where
  "dict_update d items = fold (\<lambda>(k, v) acc. setitem k v acc) items d"

text \<open>\<^verbatim>\<open>dict(pairs)\<close>\<close>

definition dict_of :: "('k \<times> 'v) list \<Rightarrow> ('k \<times> 'v) list" where
  "dict_of pairs = dict_update [] pairs"

text \<open>\<^verbatim>\<open>d.get(k)\<close>\<close>

definition getitem :: "('k \<times> 'v) list \<Rightarrow> 'k \<Rightarrow> 'v option" where
  "getitem d k = map_of d k"

section \<open>The pipeline builder (pipeline.py)\<close>

text \<open>
  A builder object holds a reference to its own list object; the list objects live in a heap,
  so that two builders, and a list handed out by \<open>build\<close>, can be told apart or found to be
  the same object.
\<close>

type_synonym ref = nat

record heap =
  cells :: "ref \<Rightarrow> pyval list"
  next_ref :: ref

record PipelineBuilder =
  pipeline :: ref

text \<open>The list display \<^verbatim>\<open>[]\<close> allocates a new list object.\<close>

definition new_list :: "heap \<Rightarrow> ref \<times> heap" where
  "new_list h =
     (next_ref h, h\<lparr>cells := (cells h)(next_ref h := []), next_ref := Suc (next_ref h)\<rparr>)"

text \<open>\<^verbatim>\<open>xs.append(x)\<close>\<close>

definition list_append :: "ref \<Rightarrow> pyval \<Rightarrow> heap \<Rightarrow> heap" where
  "list_append r x h = h\<lparr>cells := (cells h)(r := cells h r @ [x])\<rparr>"

definition PipelineBuilder_init :: "heap \<Rightarrow> PipelineBuilder \<times> heap" where
  "PipelineBuilder_init h = (case new_list h of (r, h') \<Rightarrow> (\<lparr>pipeline = r\<rparr>, h'))"

definition build :: "PipelineBuilder \<Rightarrow> heap \<Rightarrow> ref \<times> heap" where
  "build self h = (pipeline self, h)"

definition match :: "PipelineBuilder \<Rightarrow> pyval \<Rightarrow> heap \<Rightarrow> PipelineBuilder \<times> heap" where
  "match self query h = (self, list_append (pipeline self) (PDict [(''$match'', query)]) h)"

definition project :: "PipelineBuilder \<Rightarrow> pyval \<Rightarrow> heap \<Rightarrow> PipelineBuilder \<times> heap" where
  "project self fields' h =
     (self, list_append (pipeline self) (PDict [(''$project'', fields')]) h)"

text \<open>
  One round of the loop over \<open>groupby\<close>: a string names a field, a dict is merged item by
  item, and a value that is neither is passed over.
\<close>

fun group_field :: "pyval \<Rightarrow> pydict \<Rightarrow> pydict" where
  "group_field (PStr field) ident = setitem field (PStr (CHR ''$'' # field)) ident"
| "group_field (PDict field) ident = fold (\<lambda>(key, val) acc. setitem key val acc) field ident"
| "group_field _ ident = ident"

definition group_ident :: "pyval list \<Rightarrow> pydict" where
  "group_ident groupby = fold group_field groupby []"

text \<open>
  The body of \<open>group\<close> up to the \<open>append\<close>. \<open>kwargs\<close> holds the keywords of the call in
  the order written; Python binds a keyword named \<open>self\<close> or \<open>groupby\<close> to the parameter of
  that name or refuses the call, so neither occurs among them.
\<close>

definition group_stage :: "pyval list \<Rightarrow> pydict \<Rightarrow> pydict" where
  "group_stage groupby kwargs = dict_update [(''_id'', PDict (group_ident groupby))] kwargs"

definition group :: "PipelineBuilder \<Rightarrow> pyval list \<Rightarrow> pydict \<Rightarrow> heap \<Rightarrow> PipelineBuilder \<times> heap" where
  "group self groupby kwargs h =
     (self, list_append (pipeline self) (PDict [(''$group'', PDict (group_stage groupby kwargs))]) h)"

text \<open>
  The argument of \<open>sort\<close> is one (field, direction) tuple or a list of such tuples; a tuple
  is wrapped into a one-element list first.
\<close>

datatype sortby = SortTuple "string \<times> pyval" | SortList "(string \<times> pyval) list"

fun sort_dict :: "sortby \<Rightarrow> pydict" where
  "sort_dict (SortTuple p) = dict_of [p]"
| "sort_dict (SortList ps) = dict_of ps"

definition sort_by :: "PipelineBuilder \<Rightarrow> sortby \<Rightarrow> heap \<Rightarrow> PipelineBuilder \<times> heap" where
  "sort_by self sortby h =
     (self, list_append (pipeline self) (PDict [(''$sort'', PDict (sort_dict sortby))]) h)"

definition skip :: "PipelineBuilder \<Rightarrow> pyval \<Rightarrow> heap \<Rightarrow> PipelineBuilder \<times> heap" where
  "skip self n h = (self, list_append (pipeline self) (PDict [(''$skip'', n)]) h)"

definition limit :: "PipelineBuilder \<Rightarrow> pyval \<Rightarrow> heap \<Rightarrow> PipelineBuilder \<times> heap" where
  "limit self n h = (self, list_append (pipeline self) (PDict [(''$limit'', n)]) h)"

definition unwind :: "PipelineBuilder \<Rightarrow> pyval \<Rightarrow> heap \<Rightarrow> PipelineBuilder \<times> heap" where
  "unwind self field h = (self, list_append (pipeline self) (PDict [(''$unwind'', field)]) h)"

text \<open>A call of one of the stage-appending methods, with its arguments.\<close>

datatype call =
    Match pyval
  | Project pyval
  | Group "pyval list" pydict
  | Sort sortby
  | Skip pyval
  | Limit pyval
  | Unwind pyval

fun invoke :: "call \<Rightarrow> PipelineBuilder \<Rightarrow> heap \<Rightarrow> PipelineBuilder \<times> heap" where
  "invoke (Match query) self h = match self query h"
| "invoke (Project fields') self h = project self fields' h"
| "invoke (Group groupby kwargs) self h = group self groupby kwargs h"
| "invoke (Sort sortby) self h = sort_by self sortby h"
| "invoke (Skip n) self h = skip self n h"
| "invoke (Limit n) self h = limit self n h"
| "invoke (Unwind field) self h = unwind self field h"

text \<open>
  A fluent chain \<^verbatim>\<open>b.m1(..).m2(..)\<close>: every method is called on the object the
  previous one returned.
\<close>

fun chain :: "call list \<Rightarrow> PipelineBuilder \<Rightarrow> heap \<Rightarrow> PipelineBuilder \<times> heap" where
  "chain [] self h = (self, h)"
| "chain (c # cs) self h = (case invoke c self h of (self', h') \<Rightarrow> chain cs self' h')"

text \<open>The list that \<open>build\<close> hands out, read in the heap as it is after the call.\<close>

definition built :: "PipelineBuilder \<Rightarrow> heap \<Rightarrow> pyval list" where
  "built self h = (case build self h of (r, h') \<Rightarrow> cells h' r)"

text \<open>
  Calls on two builders in any interleaving: \<open>(True, c)\<close> is the call \<open>c\<close> on the first
  builder, \<open>(False, c)\<close> on the second.
\<close>

fun interleave :: "(bool \<times> call) list \<Rightarrow> PipelineBuilder \<Rightarrow> PipelineBuilder \<Rightarrow> heap \<Rightarrow> heap" where
  "interleave [] b1 b2 h = h"
| "interleave ((on_first, c) # evs) b1 b2 h =
     interleave evs b1 b2 (snd (invoke c (if on_first then b1 else b2) h))"

text \<open>The stage document a call stands for: the operator name and its payload.\<close>

fun stage_of :: "call \<Rightarrow> pyval" where
  "stage_of (Match query) = PDict [(''$match'', query)]"
| "stage_of (Project fields') = PDict [(''$project'', fields')]"
| "stage_of (Group groupby kwargs) = PDict [(''$group'', PDict (group_stage groupby kwargs))]"
| "stage_of (Sort sortby) = PDict [(''$sort'', PDict (sort_dict sortby))]"
| "stage_of (Skip n) = PDict [(''$skip'', n)]"
| "stage_of (Limit n) = PDict [(''$limit'', n)]"
| "stage_of (Unwind field) = PDict [(''$unwind'', field)]"

definition operators :: "string list" where
  "operators = [''$match'', ''$project'', ''$group'', ''$sort'', ''$skip'', ''$limit'', ''$unwind'']"

text \<open>A document with exactly one top-level key, which is an operator name.\<close>

fun single_key :: "pyval \<Rightarrow> bool" where
  "single_key (PDict [(k, v)]) = (k \<in> set operators)"
| "single_key _ = False"

section \<open>Exceptions\<close>

datatype exn =
    AttributeError string
  | KeyError string
  | BulkWriteError pyval
  | InvalidURI string
  | InvalidName string
  | DriverError string

section \<open>Connections (connection.py)\<close>

text \<open>
  The driver is outside the repository, so what it does is taken as it comes. Its client
  constructor either raises (for instance \<open>InvalidURI\<close> for a host it cannot parse) or makes a
  new client object for the host it is given; the driver remembers the hosts of the clients
  made, in the order of the calls, so that they can be counted. \<^verbatim>\<open>client[name]\<close> either
  raises (\<open>InvalidName\<close> for a name that cannot name a database) or is the handle of the
  database \<open>name\<close> of that client. Which hosts and names are refused is a matter of the
  driver, recorded in \<open>client_raises\<close> and \<open>database_raises\<close>. A client object is truthy.
\<close>

type_synonym client = nat

record driver =
  clients :: "string option list"
  client_raises :: "string option \<Rightarrow> exn option"
  database_raises :: "string \<Rightarrow> exn option"

definition MongoClient :: "string option \<Rightarrow> driver \<Rightarrow> (exn + client) \<times> driver" where
  "MongoClient host d =
     (case client_raises d host of
        Some e \<Rightarrow> (Inl e, d)
      | None \<Rightarrow> (Inr (length (clients d)), d\<lparr>clients := clients d @ [host]\<rparr>))"

datatype database = Database client string

text \<open>\<^verbatim>\<open>client[name]\<close>\<close>

definition client_getitem :: "client \<Rightarrow> string \<Rightarrow> driver \<Rightarrow> exn + database" where
  "client_getitem c name d =
     (case database_raises d name of Some e \<Rightarrow> Inl e | None \<Rightarrow> Inr (Database c name))"

record MongoDBConnection =
  uri :: string
  client :: "client option"

definition MongoDBConnection_init :: "string \<Rightarrow> MongoDBConnection" where
  "MongoDBConnection_init u = \<lparr>uri = u, client = None\<rparr>"

text \<open>
  \<open>get_database\<close> of \<open>MongoDBConnection\<close>. When the client constructor raises, the assignment
  to \<open>self.client\<close> does not happen; when \<^verbatim>\<open>self.client[database_name]\<close> raises, it has
  happened. The object and the driver are returned in every case.
\<close>

definition get_database ::
  "MongoDBConnection \<Rightarrow> string \<Rightarrow> driver \<Rightarrow> (exn + database) \<times> MongoDBConnection \<times> driver" where
  "get_database self database_name d =
     (case client self of
        None \<Rightarrow>
          (case MongoClient (Some (uri self)) d of
             (Inl e, d') \<Rightarrow> (Inl e, self, d')
           | (Inr c, d') \<Rightarrow> (client_getitem c database_name d', self\<lparr>client := Some c\<rparr>, d'))
      | Some c \<Rightarrow> (client_getitem c database_name d, self, d))"

text \<open>
  Successive \<open>get_database\<close> calls on one connection, with the outcome of each; a caller that
  catches an exception can go on calling.
\<close>

fun get_databases ::
  "string list \<Rightarrow> MongoDBConnection \<Rightarrow> driver \<Rightarrow>
     (exn + database) list \<times> MongoDBConnection \<times> driver" where
  "get_databases [] self d = ([], self, d)"
| "get_databases (n # ns) self d =
     (case get_database self n d of
        (r, self', d') \<Rightarrow>
          (case get_databases ns self' d' of (rs, self'', d'') \<Rightarrow> (r # rs, self'', d'')))"

text \<open>
  What \<open>DjangoMongoDBConnection\<close> reads from its surroundings: whether the package
  \<open>django\<close> is found (the result of \<open>find_package\<close>, whose module is not part of the
  sources) and the \<open>DATABASES\<close> setting of the configured Django project.
\<close>

record environment =
  django_installed :: bool
  DATABASES :: "(string \<times> (string \<times> string) list) list"

text \<open>\<^verbatim>\<open>settings.DATABASES['mongodb'][key]\<close>\<close>

definition mongodb_setting :: "environment \<Rightarrow> string \<Rightarrow> exn + string" where
  "mongodb_setting env key =
     (case map_of (DATABASES env) ''mongodb'' of
        None \<Rightarrow> Inl (KeyError ''mongodb'')
      | Some section \<Rightarrow>
          (case map_of section key of None \<Rightarrow> Inl (KeyError key) | Some v \<Rightarrow> Inr v))"

text \<open>
  The attributes of a \<open>DjangoMongoDBConnection\<close>. \<open>dj_uri\<close> and \<open>dj_client\<close> may hold
  Python's \<open>None\<close>; \<open>db_name = None\<close> says that the object has no attribute \<open>db_name\<close> yet,
  so that reading it raises \<open>AttributeError\<close>.
\<close>

record DjangoMongoDBConnection =
  dj_client :: "client option"
  dj_uri :: "string option"
  db_name :: "string option"

definition get_database_uri ::
  "DjangoMongoDBConnection \<Rightarrow> bool \<Rightarrow> environment \<Rightarrow> exn + string option" where
  "get_database_uri self use_django env =
     (if use_django \<and> django_installed env then
        (case mongodb_setting env ''URI'' of Inl e \<Rightarrow> Inl e | Inr u \<Rightarrow> Inr (Some u))
      else Inr (dj_uri self))"

definition read_db_name :: "DjangoMongoDBConnection \<Rightarrow> exn + string \<times> DjangoMongoDBConnection" where
  "read_db_name self =
     (case db_name self of None \<Rightarrow> Inl (AttributeError ''db_name'') | Some n \<Rightarrow> Inr (n, self))"

definition get_db_name ::
  "DjangoMongoDBConnection \<Rightarrow> bool \<Rightarrow> environment \<Rightarrow> exn + string \<times> DjangoMongoDBConnection" where
  "get_db_name self use_django env =
     (if use_django \<and> django_installed env then
        (case mongodb_setting env ''DB_NAME'' of
           Inl e \<Rightarrow> Inl e
         | Inr n \<Rightarrow> read_db_name (self\<lparr>db_name := Some n\<rparr>))
      else read_db_name self)"

definition DjangoMongoDBConnection_init ::
  "string option \<Rightarrow> environment \<Rightarrow> exn + DjangoMongoDBConnection" where
  "DjangoMongoDBConnection_init u env =
     (case get_db_name \<lparr>dj_client = None, dj_uri = u, db_name = None\<rparr> True env of
        Inl e \<Rightarrow> Inl e
      | Inr (n, self) \<Rightarrow> Inr (self\<lparr>db_name := Some n\<rparr>))"

text \<open>
  The return statement \<^verbatim>\<open>return self.client[self.db_name]\<close> of \<open>get_database\<close>, for the
  client \<open>c\<close> that \<open>self.client\<close> holds.
\<close>

definition return_database ::
  "DjangoMongoDBConnection \<Rightarrow> client \<Rightarrow> driver \<Rightarrow>
     (exn + database) \<times> DjangoMongoDBConnection \<times> driver" where
  "return_database self c d =
     (case db_name self of
        None \<Rightarrow> (Inl (AttributeError ''db_name''), self, d)
      | Some n \<Rightarrow> (client_getitem c n d, self, d))"

text \<open>
  \<open>get_database\<close> of \<open>DjangoMongoDBConnection\<close>. An exception leaves behind the
  assignments made before it, so the object and the driver are returned in either case.
\<close>

definition dj_get_database ::
  "DjangoMongoDBConnection \<Rightarrow> string \<Rightarrow> environment \<Rightarrow> driver \<Rightarrow>
     (exn + database) \<times> DjangoMongoDBConnection \<times> driver" where
  "dj_get_database self database_name env d =
     (case dj_client self of
        None \<Rightarrow>
          (case get_database_uri self True env of
             Inl e \<Rightarrow> (Inl e, self, d)
           | Inr u \<Rightarrow>
               (case MongoClient u d of
                  (Inl e, d') \<Rightarrow> (Inl e, self\<lparr>dj_uri := u\<rparr>, d')
                | (Inr c, d') \<Rightarrow> return_database (self\<lparr>dj_uri := u, dj_client := Some c\<rparr>) c d'))
      | Some c \<Rightarrow> return_database self c d)"

section \<open>Inserting documents (repository.py)\<close>

text \<open>
  The collection object belongs to the driver. Its \<open>insert_many\<close> is taken as it comes: a
  function of the documents and of the state \<open>'s\<close> of the database, which either returns an
  \<open>InsertManyResult\<close> or raises, and leaves a new state in both cases.
\<close>

record InsertManyResult =
  inserted_ids :: "pyval list"
  acknowledged :: bool

record 's collection =
  coll_insert_many :: "pyval list \<Rightarrow> 's \<Rightarrow> (exn + InsertManyResult) \<times> 's"

record 's InsertRepository =
  collection :: "'s collection"

text \<open>The result \<open>None\<close> of the option is Python's \<open>None\<close>, returned when the body falls through.\<close>

definition insert_many ::
  "'s InsertRepository \<Rightarrow> pyval list \<Rightarrow> 's \<Rightarrow> (exn + InsertManyResult option) \<times> 's" where
  "insert_many self documents s =
     (case coll_insert_many (collection self) documents s of
        (Inr r, s') \<Rightarrow> (Inr (Some r), s')
      | (Inl (BulkWriteError bwe), s') \<Rightarrow> (Inr None, s')
      | (Inl e, s') \<Rightarrow> (Inl e, s'))"

section \<open>Auxiliary notions used in the statements\<close>

text \<open>The heap of a program that has not made any list yet.\<close>

definition empty_heap :: heap where
  "empty_heap = \<lparr>cells = (\<lambda>r. []), next_ref = 0\<rparr>"

text \<open>The operator name under which a method files its payload.\<close>

fun operator :: "call \<Rightarrow> string" where
  "operator (Match query) = ''$match''"
| "operator (Project fields') = ''$project''"
| "operator (Group groupby kwargs) = ''$group''"
| "operator (Sort sortby) = ''$sort''"
| "operator (Skip n) = ''$skip''"
| "operator (Limit n) = ''$limit''"
| "operator (Unwind field) = ''$unwind''"

text \<open>The top-level keys of a document, in order; \<open>None\<close> for a value that is no mapping.\<close>

fun top_keys :: "pyval \<Rightarrow> string list option" where
  "top_keys (PDict d) = Some (map fst d)"
| "top_keys _ = None"

text \<open>
  The items one entry of \<open>groupby\<close> contributes to the group identifier, as the description
  of \<open>group\<close> words it: a plain field name maps to the reference to that field, a mapping
  contributes its own items, anything else nothing.
\<close>

fun group_items :: "pyval \<Rightarrow> pydict" where
  "group_items (PStr f) = [(f, PStr (CHR ''$'' # f))]"
| "group_items (PDict d) = d"
| "group_items _ = []"

text \<open>
  Three sample collections over a database state that is the list of the stored documents:
  one stores every document and returns their list, one stores the first document only and
  then reports a bulk write error, one fails with another driver error and stores nothing.
\<close>

definition total_writer :: "pyval list collection" where
  "total_writer =
     \<lparr>coll_insert_many =
        (\<lambda>docs s. (Inr \<lparr>inserted_ids = docs, acknowledged = True\<rparr>, s @ docs))\<rparr>"

definition partial_writer :: "pyval list collection" where
  "partial_writer =
     \<lparr>coll_insert_many = (\<lambda>docs s. (Inl (BulkWriteError (PInt 1)), s @ take 1 docs))\<rparr>"

definition failing_writer :: "pyval list collection" where
  "failing_writer =
     \<lparr>coll_insert_many = (\<lambda>docs s. (Inl (DriverError ''AutoReconnect''), s))\<rparr>"

text \<open>
  A sample driver that has made no client yet. On the hosts and names used below it refuses
  what the MongoDB driver refuses: a host with a scheme other than \<open>mongodb\<close> or
  \<open>mongodb+srv\<close>, the empty database name, and a database name with a blank, a dot, a
  dollar sign or a slash in it.
\<close>

fun has_scheme :: "string \<Rightarrow> bool" where
  "has_scheme [] = False"
| "has_scheme (c # cs) = (take 3 (c # cs) = ''://'' \<or> has_scheme cs)"

definition sample_client_raises :: "string option \<Rightarrow> exn option" where
  "sample_client_raises host =
     (case host of
        None \<Rightarrow> None
      | Some u \<Rightarrow>
          (if take 10 u = ''mongodb://'' \<or> take 14 u = ''mongodb+srv://'' then None
           else if has_scheme u then Some (InvalidURI u)
           else None))"

definition sample_database_raises :: "string \<Rightarrow> exn option" where
  "sample_database_raises name =
     (if name = [] \<or> list_ex (\<lambda>c. c \<in> set '' .$/'') name then Some (InvalidName name) else None)"

definition sample_driver :: driver where
  "sample_driver =
     \<lparr>clients = [], client_raises = sample_client_raises, database_raises = sample_database_raises\<rparr>"

text \<open>Whether an \<^verbatim>\<open>except BulkWriteError\<close> clause catches the exception.\<close>

fun is_bulk_write_error :: "exn \<Rightarrow> bool" where
  "is_bulk_write_error (BulkWriteError details) = True"
| "is_bulk_write_error _ = False"

section \<open>Facts about dictionaries\<close>

lemma setitem_keys:
  "map fst (setitem k v d) = (if k \<in> fst ` set d then map fst d else map fst d @ [k])"
  by (induction d) force+

lemma setitem_dom: "fst ` set (setitem k v d) = insert k (fst ` set d)"
proof -
  have "set (map fst (setitem k v d)) = insert k (set (map fst d))"
    by (simp only: setitem_keys) auto
  then show ?thesis by simp
qed

lemma map_of_setitem: "map_of (setitem k v d) = (map_of d)(k \<mapsto> v)"
  by (induction d) (auto simp: fun_eq_iff)

lemma setitem_fresh: "k \<notin> fst ` set d \<Longrightarrow> setitem k v d = d @ [(k, v)]"
  by (induction d) auto

lemma dict_update_Nil: "dict_update d [] = d"
  by (simp add: dict_update_def)

lemma dict_update_Cons: "dict_update d ((k, v) # items) = dict_update (setitem k v d) items"
  by (simp add: dict_update_def)

lemma dict_update_append: "dict_update d (xs @ ys) = dict_update (dict_update d xs) ys"
  by (simp add: dict_update_def)

lemma dict_update_fresh:
  "distinct (map fst items) \<Longrightarrow> set (map fst items) \<inter> set (map fst d) = {} \<Longrightarrow>
   dict_update d items = d @ items"
proof (induction items arbitrary: d)
  case Nil
  then show ?case by (simp add: dict_update_Nil)
next
  case (Cons p items)
  obtain k v where p: "p = (k, v)" by (cases p)
  from Cons.prems have fresh: "k \<notin> fst ` set d" and d: "distinct (map fst items)"
    and disj: "set (map fst items) \<inter> set (map fst (d @ [(k, v)])) = {}"
    by (auto simp: p)
  have "dict_update d (p # items) = dict_update (d @ [(k, v)]) items"
    by (simp add: p dict_update_Cons setitem_fresh [OF fresh])
  also have "\<dots> = (d @ [(k, v)]) @ items"
    by (rule Cons.IH [OF d disj])
  finally show ?case by (simp add: p)
qed

lemma dict_of_distinct: "distinct (map fst ps) \<Longrightarrow> dict_of ps = ps"
  using dict_update_fresh [of ps "[]"] by (simp add: dict_of_def)

lemma map_of_dict_update: "map_of (dict_update d items) = map_of (rev items @ d)"
proof (induction items arbitrary: d)
  case Nil
  then show ?case by (simp add: dict_update_Nil)
next
  case (Cons p items)
  obtain k v where p: "p = (k, v)" by (cases p)
  show ?case
    by (simp add: p dict_update_Cons Cons.IH map_of_setitem map_add_def fun_eq_iff
        split: option.splits)
qed

lemma dict_update_snoc: "dict_update d (items @ [(k, v)]) = setitem k v (dict_update d items)"
  by (simp add: dict_update_def)

lemma set_keys_dict_update: "fst ` set (dict_update d items) = fst ` set d \<union> fst ` set items"
proof (induction items rule: rev_induct)
  case Nil
  then show ?case by (simp add: dict_update_Nil)
next
  case (snoc p items)
  obtain k v where p: "p = (k, v)" by (cases p)
  show ?case
    using snoc.IH by (simp add: p dict_update_snoc setitem_dom)
qed

lemma keys_dict_of: "map fst (dict_of ps) = rev (remdups (rev (map fst ps)))"
proof (induction ps rule: rev_induct)
  case Nil
  then show ?case by (simp add: dict_of_def dict_update_Nil)
next
  case (snoc p ps)
  obtain k v where p: "p = (k, v)" by (cases p)
  have mem: "k \<in> fst ` set (dict_of ps) \<longleftrightarrow> k \<in> fst ` set ps"
    by (simp add: dict_of_def set_keys_dict_update)
  show ?case
    using snoc.IH mem by (simp add: p dict_of_def dict_update_snoc setitem_keys)
qed

lemma distinct_keys_dict_of: "distinct (map fst (dict_of ps))"
  by (simp add: keys_dict_of)

lemma map_of_dict_of: "map_of (dict_of ps) = map_of (rev ps)"
  by (simp add: dict_of_def map_of_dict_update)

section \<open>Facts about the builder\<close>

lemma invoke_appends: "invoke c self h = (self, list_append (pipeline self) (stage_of c) h)"
  by (cases c)
    (simp_all add: match_def project_def group_def sort_by_def skip_def limit_def unwind_def)

lemma chain_result:
  "chain cs self h =
     (self, h\<lparr>cells := (cells h)(pipeline self := cells h (pipeline self) @ map stage_of cs)\<rparr>)"
proof (induction cs arbitrary: h)
  case Nil
  then show ?case by simp
next
  case (Cons c cs)
  have "(\<lambda>a. if a = pipeline self
              then cells h (pipeline self) @ stage_of c # map stage_of cs
              else if a = pipeline self then cells h (pipeline self) @ [stage_of c] else cells h a)
        = (\<lambda>a. if a = pipeline self
              then cells h (pipeline self) @ stage_of c # map stage_of cs else cells h a)"
    by (rule ext) simp
  then show ?case
    by (simp add: invoke_appends Cons.IH list_append_def)
qed

lemma built_cells: "built self h = cells h (pipeline self)"
  by (simp add: built_def build_def)

lemma built_chain:
  "built b' (snd (chain cs b h)) =
     (if pipeline b' = pipeline b then built b' h @ map stage_of cs else built b' h)"
  by (simp add: chain_result built_cells)

lemma interleave_cells:
  "pipeline b1 \<noteq> pipeline b2 \<Longrightarrow>
   cells (interleave evs b1 b2 h) =
     (cells h)
       (pipeline b1 := cells h (pipeline b1) @ map stage_of (map snd (filter fst evs)),
        pipeline b2 := cells h (pipeline b2) @ map stage_of (map snd (filter (\<lambda>e. \<not> fst e) evs)))"
proof (induction evs arbitrary: h)
  case Nil
  then show ?case by (simp add: fun_eq_iff)
next
  case (Cons e evs)
  obtain t c where e: "e = (t, c)" by (cases e)
  show ?case
    using Cons.prems by (cases t) (simp_all add: e Cons.IH invoke_appends list_append_def fun_eq_iff)
qed

lemma init_result:
  "PipelineBuilder_init h =
     (\<lparr>pipeline = next_ref h\<rparr>,
      h\<lparr>cells := (cells h)(next_ref h := []), next_ref := Suc (next_ref h)\<rparr>)"
  by (simp add: PipelineBuilder_init_def new_list_def)

section \<open>The pipeline builder: order of the stages\<close>

text \<open>
  Claim C1. After any chain of stage-appending calls on one builder, \<open>build\<close> returns one
  stage for every call, in the order of the calls, behind what the list held before; nothing
  is reordered and nothing is dropped, so equal stages appear as often as they were
  appended. A builder made by the constructor starts from the empty list. Calls on another
  builder change nothing: when two builders are made (the second one after some calls on the
  first) and then called in any interleaving, each one's list holds exactly its own calls
  in their order. \<open>skip(5)\<close> followed by \<open>limit(10)\<close> gives the stages \<open>{"$skip": 5}\<close> and
  \<open>{"$limit": 10}\<close> in this order.
\<close>

theorem build_call_order:
  "built b (snd (chain cs b h)) = built b h @ map stage_of cs
   \<and> length (built b (snd (chain cs b h))) = length (built b h) + length cs
   \<and> (case PipelineBuilder_init h of (b0, h0) \<Rightarrow> built b0 (snd (chain cs b0 h0)) = map stage_of cs)
   \<and> (case PipelineBuilder_init h of (b1, h1) \<Rightarrow>
        case PipelineBuilder_init (snd (chain cs b1 h1)) of (b2, h2) \<Rightarrow>
          built b1 (interleave evs b1 b2 h2) = map stage_of (cs @ map snd (filter fst evs))
          \<and> built b2 (interleave evs b1 b2 h2) = map stage_of (map snd (filter (\<lambda>e. \<not> fst e) evs)))
   \<and> (case PipelineBuilder_init h of (b0, h0) \<Rightarrow>
        built b0 (snd (chain [Skip (PInt 5), Limit (PInt 10)] b0 h0)) =
          [PDict [(''$skip'', PInt 5)], PDict [(''$limit'', PInt 10)]])"
proof -
  have ordered: "built b (snd (chain cs b h)) = built b h @ map stage_of cs" for b cs h
    by (simp add: built_chain)
  have fresh: "built b0 (snd (chain cs b0 h0)) = map stage_of cs"
    if "PipelineBuilder_init h = (b0, h0)" for b0 h0 cs
    using that by (auto simp: init_result chain_result built_cells)
  have two: "built b1 (interleave evs b1 b2 h2) = map stage_of (cs @ map snd (filter fst evs))
      \<and> built b2 (interleave evs b1 b2 h2) = map stage_of (map snd (filter (\<lambda>e. \<not> fst e) evs))"
    if "PipelineBuilder_init h = (b1, h1)" "PipelineBuilder_init (snd (chain cs b1 h1)) = (b2, h2)"
    for b1 h1 b2 h2
  proof -
    from that have ne: "pipeline b1 \<noteq> pipeline b2"
      by (auto simp: init_result chain_result)
    from that show ?thesis
      by (auto simp: interleave_cells [OF ne] built_cells init_result chain_result)
  qed
  show ?thesis
    using ordered [of b cs h] fresh [of _ _ cs] fresh [of _ _ "[Skip (PInt 5), Limit (PInt 10)]"] two
    by (auto split: prod.splits)
qed

section \<open>The pipeline builder: \<open>build\<close> does not reset\<close>

text \<open>
  Claim C7. \<open>build\<close> returns the builder's list and changes nothing: the heap after the call
  is the heap before it. A stage-appending call made after \<open>build\<close> extends the same list, so
  the next \<open>build\<close> returns every stage accumulated before, followed by the new one; the
  list handed out by the first \<open>build\<close> is that same object.
\<close>

theorem build_keeps_state:
  "build b h = (pipeline b, h)
   \<and> (case build b h of (r, h') \<Rightarrow>
        case invoke c b h' of (b', h'') \<Rightarrow>
          b' = b \<and> built b' h'' = cells h r @ [stage_of c] \<and> cells h'' r = cells h r @ [stage_of c])
   \<and> (case chain cs b h of (b1, h1) \<Rightarrow>
        case build b1 h1 of (r, h2) \<Rightarrow>
          case invoke c b1 h2 of (b3, h3) \<Rightarrow>
            built b3 h3 = built b h @ map stage_of cs @ [stage_of c])"
  by (simp add: build_def invoke_appends chain_result built_cells list_append_def)

lemma top_keys_stage_of: "top_keys (stage_of c) = Some [operator c]"
  by (cases c) simp_all

lemma single_key_stage_of: "single_key (stage_of c)"
  by (cases c) (simp_all add: operators_def)

section \<open>The pipeline builder: every stage has one key\<close>

text \<open>
  Claim C8. Every stage a builder method appends is a mapping with exactly one top-level
  key, the operator name of the method. Hence a chain of calls adds one such mapping per
  call, and every element of what \<open>build\<close> returns for a builder made by the constructor
  has exactly one top-level key.
\<close>

theorem stage_single_key:
  "map top_keys (built b (snd (chain cs b h))) =
     map top_keys (built b h) @ map (\<lambda>c. Some [operator c]) cs
   \<and> list_all single_key (built b (snd (chain cs b h))) = list_all single_key (built b h)
   \<and> (case PipelineBuilder_init h of (b0, h0) \<Rightarrow>
        map top_keys (built b0 (snd (chain cs b0 h0))) = map (\<lambda>c. Some [operator c]) cs
        \<and> list_all single_key (built b0 (snd (chain cs b0 h0))))"
proof -
  have keys_new: "map top_keys (map stage_of cs) = map (\<lambda>c. Some [operator c]) cs"
    by (simp add: top_keys_stage_of)
  have all_new: "list_all single_key (map stage_of cs)"
    by (simp add: list_all_iff single_key_stage_of)
  have fresh: "built b0 (snd (chain cs b0 h0)) = map stage_of cs"
    if "PipelineBuilder_init h = (b0, h0)" for b0 h0
    using that by (auto simp: init_result chain_result built_cells)
  show ?thesis
    using keys_new all_new fresh
    by (auto simp: built_chain split: prod.splits)
qed

theorem stage_single_key_witness:
  "case PipelineBuilder_init empty_heap of
     (b0, h0) \<Rightarrow>
       list_all single_key
         (built b0
            (snd (chain [Match (PDict [(''status'', PStr ''active'')]),
                         Sort (SortTuple (''x'', PInt (- 1))), Limit (PInt 10)] b0 h0)))"
  using stage_single_key [where cs = "[Match (PDict [(''status'', PStr ''active'')]),
      Sort (SortTuple (''x'', PInt (- 1))), Limit (PInt 10)]" and h = empty_heap]
  by (auto split: prod.splits simp del: chain.simps)

lemma setitem_present:
  "k \<notin> fst ` set pre \<Longrightarrow> setitem k v (pre @ (k, v0) # rest) = pre @ (k, v) # rest"
  by (induction pre) auto

section \<open>The pipeline builder: \<open>sort\<close>\<close>

text \<open>
  Claim C6. \<open>sort\<close> of a single (field, direction) pair and \<open>sort\<close> of the one-element
  list of that pair do the same; both \<open>sort(("x", -1))\<close> and \<open>sort([("x", -1)])\<close> append
  \<open>{"$sort": {"x": -1}}\<close>. For a list of pairs with pairwise distinct field names the
  \<open>$sort\<close> mapping lists the fields in the order of the list, as for
  \<open>sort([("a", 1), ("b", -1)])\<close>.
\<close>


theorem sort_tuple_list:
  "sort_by b (SortTuple p) h = sort_by b (SortList [p]) h
   \<and> built b (snd (sort_by b (SortTuple (''x'', PInt (- 1))) h)) =
       built b h @ [PDict [(''$sort'', PDict [(''x'', PInt (- 1))])]]
   \<and> built b (snd (sort_by b (SortList [(''x'', PInt (- 1))]) h)) =
       built b h @ [PDict [(''$sort'', PDict [(''x'', PInt (- 1))])]]
   \<and> (distinct (map fst ps) \<longrightarrow>
        built b (snd (sort_by b (SortList ps) h)) = built b h @ [PDict [(''$sort'', PDict ps)]])
   \<and> built b (snd (sort_by b (SortList [(''a'', PInt 1), (''b'', PInt (- 1))]) h)) =
       built b h @ [PDict [(''$sort'', PDict [(''a'', PInt 1), (''b'', PInt (- 1))])]]"
proof -
  have one: "dict_of [q] = [q]" for q :: "string \<times> pyval"
    by (simp add: dict_of_distinct)
  have ab: "dict_of [(''a'', PInt 1), (''b'', PInt (- 1))] = [(''a'', PInt 1), (''b'', PInt (- 1))]"
    by (simp add: dict_of_distinct)
  show ?thesis
    by (simp add: sort_by_def built_cells list_append_def one ab dict_of_distinct)
qed

theorem sort_tuple_list_witness:
  "distinct (map fst [(''total'', PInt (- 1)), (''name'', PInt 1)])
   \<and> built \<lparr>pipeline = 0\<rparr>
        (snd (sort_by \<lparr>pipeline = 0\<rparr> (SortList [(''total'', PInt (- 1)), (''name'', PInt 1)]) empty_heap)) =
       [PDict [(''$sort'', PDict [(''total'', PInt (- 1)), (''name'', PInt 1)])]]"
  using sort_tuple_list [where ps = "[(''total'', PInt (- 1)), (''name'', PInt 1)]"
      and b = "\<lparr>pipeline = 0\<rparr>" and h = empty_heap]
  by (simp add: built_cells empty_heap_def)

text \<open>
  Claim C10. The \<open>$sort\<close> mapping has one entry for every field name of the list, in the
  order of the first occurrences, and the direction of a field is that of its last pair.
  In particular, when a field occurs twice, its single entry stands where the first of the
  two pairs stood and carries the direction of the second. The call still appends exactly
  one stage.
\<close>

theorem sort_duplicate_fields:
  "map fst (sort_dict (SortList ps)) = rev (remdups (rev (map fst ps)))
   \<and> distinct (map fst (sort_dict (SortList ps)))
   \<and> map_of (sort_dict (SortList ps)) = map_of (rev ps)
   \<and> (f \<notin> fst ` set (pre @ mid @ post) \<and> distinct (map fst (pre @ mid @ post)) \<longrightarrow>
        sort_dict (SortList (pre @ [(f, d1)] @ mid @ [(f, d2)] @ post)) = pre @ [(f, d2)] @ mid @ post)
   \<and> built b (snd (sort_by b (SortList ps) h)) = built b h @ [PDict [(''$sort'', PDict (sort_dict (SortList ps)))]]"
proof -
  have dup: "dict_of (pre @ [(f, d1)] @ mid @ [(f, d2)] @ post) = pre @ [(f, d2)] @ mid @ post"
    if fresh: "f \<notin> fst ` set (pre @ mid @ post)" and dist: "distinct (map fst (pre @ mid @ post))"
  proof -
    from fresh dist have d1: "distinct (map fst (pre @ (f, d1) # mid))"
      by auto
    from fresh have fpre: "f \<notin> fst ` set pre"
      by auto
    from fresh dist have d2: "distinct (map fst post)"
      and disj: "set (map fst post) \<inter> set (map fst (pre @ (f, d2) # mid)) = {}"
      by auto
    have "dict_of (pre @ [(f, d1)] @ mid @ [(f, d2)] @ post)
          = dict_update (dict_update (dict_of (pre @ (f, d1) # mid)) [(f, d2)]) post"
      unfolding dict_of_def dict_update_append [symmetric] by simp
    also have "\<dots> = dict_update (setitem f d2 (pre @ (f, d1) # mid)) post"
      by (simp add: dict_of_distinct [OF d1] dict_update_Cons dict_update_Nil)
    also have "\<dots> = dict_update (pre @ (f, d2) # mid) post"
      by (simp add: setitem_present [OF fpre])
    also have "\<dots> = (pre @ (f, d2) # mid) @ post"
      by (rule dict_update_fresh [OF d2 disj])
    finally show ?thesis by simp
  qed
  show ?thesis
    using dup
    by (simp add: keys_dict_of map_of_dict_of sort_by_def built_cells list_append_def
        del: append_assoc map_append set_append)
qed

theorem sort_duplicate_fields_witness:
  "''a'' \<notin> fst ` set ([] @ [(''b'', PInt 1)] @ [])
   \<and> distinct (map fst ([] @ [(''b'', PInt 1)] @ []))
   \<and> sort_dict (SortList [(''a'', PInt 1), (''b'', PInt 1), (''a'', PInt (- 1))]) =
       [(''a'', PInt (- 1)), (''b'', PInt 1)]"
  using sort_duplicate_fields [where f = "''a''" and pre = "[]" and mid = "[(''b'', PInt 1)]"
      and post = "[]" and ?d1.0 = "PInt 1" and ?d2.0 = "PInt (- 1)"]
  by simp

section \<open>Connections\<close>

lemma client_getitem_clients [simp]:
  "client_getitem c n (d\<lparr>clients := cs\<rparr>) = client_getitem c n d"
  by (simp add: client_getitem_def)

lemma get_databases_cached:
  "client self = Some c \<Longrightarrow>
   get_databases ns self d = (map (\<lambda>m. client_getitem c m d) ns, self, d)"
  by (induction ns) (simp_all add: get_database_def)

text \<open>
  Claim C5, as stated, holds for every connection and every name. When the driver refuses the
  URI, the first \<open>get_database\<close> raises and stores no client, so that the next call would
  construct again; when the driver refuses the name, the client is made and stored but no
  database is returned.
\<close>

theorem get_database_refused:
  "get_database (MongoDBConnection_init ''http://localhost'') ''shop'' sample_driver =
     (Inl (InvalidURI ''http://localhost''),
      \<lparr>uri = ''http://localhost'', client = None\<rparr>,
      sample_driver)
   \<and> get_database (MongoDBConnection_init ''mongodb://localhost'') ''a.b'' sample_driver =
     (Inl (InvalidName ''a.b''),
      \<lparr>uri = ''mongodb://localhost'', client = Some 0\<rparr>,
      sample_driver\<lparr>clients := [Some ''mongodb://localhost'']\<rparr>)"
  by (simp add: get_database_def MongoDBConnection_init_def MongoClient_def client_getitem_def
      sample_driver_def sample_client_raises_def sample_database_raises_def)

text \<open>
  Claim C5, amended. When the driver's client constructor accepts the URI given to the
  constructor of a \<open>MongoDBConnection\<close>, the first \<open>get_database\<close> makes exactly one client
  from that URI and stores it in the field \<open>client\<close>; a call on a connection that holds a
  client makes none and leaves connection and driver as they are. So over any number of calls
  the driver gains one client, and the call for the name \<open>n\<close> gives \<^verbatim>\<open>client[n]\<close> of that one
  client: the database \<open>n\<close> when the driver accepts the name, the driver's exception
  otherwise. When the client constructor raises, the exception propagates and connection and
  driver stay as they were, with no client stored.
\<close>

theorem get_database_memoizes:
  "(client_raises d (Some u) = None \<longrightarrow>
      get_database (MongoDBConnection_init u) n d =
        (client_getitem (length (clients d)) n d,
         \<lparr>uri = u, client = Some (length (clients d))\<rparr>,
         d\<lparr>clients := clients d @ [Some u]\<rparr>))
   \<and> get_database (self\<lparr>client := Some c\<rparr>) n d =
       (client_getitem c n d, self\<lparr>client := Some c\<rparr>, d)
   \<and> (client_raises d (Some u) = None \<longrightarrow>
      get_databases (n # ns) (MongoDBConnection_init u) d =
        (map (\<lambda>m. client_getitem (length (clients d)) m d) (n # ns),
         \<lparr>uri = u, client = Some (length (clients d))\<rparr>,
         d\<lparr>clients := clients d @ [Some u]\<rparr>))
   \<and> (client_raises d (Some u) = None \<and> database_raises d n = None \<longrightarrow>
      fst (get_database (MongoDBConnection_init u) n d) = Inr (Database (length (clients d)) n))
   \<and> (client_raises d (Some u') = Some e \<longrightarrow>
      get_database (MongoDBConnection_init u') n d = (Inl e, MongoDBConnection_init u', d))"
proof -
  have first: "get_database (MongoDBConnection_init u) n d =
     (client_getitem (length (clients d)) n d,
      \<lparr>uri = u, client = Some (length (clients d))\<rparr>,
      d\<lparr>clients := clients d @ [Some u]\<rparr>)"
    if "client_raises d (Some u) = None"
    using that by (simp add: get_database_def MongoDBConnection_init_def MongoClient_def)
  have later: "get_databases ns \<lparr>uri = u, client = Some (length (clients d))\<rparr> d' =
      (map (\<lambda>m. client_getitem (length (clients d)) m d') ns,
       \<lparr>uri = u, client = Some (length (clients d))\<rparr>, d')" for d'
    by (rule get_databases_cached) simp
  have cached: "get_database (self\<lparr>client := Some c\<rparr>) n d =
       (client_getitem c n d, self\<lparr>client := Some c\<rparr>, d)"
    by (simp add: get_database_def)
  have handle: "fst (get_database (MongoDBConnection_init u) n d) = Inr (Database (length (clients d)) n)"
    if "client_raises d (Some u) = None" "database_raises d n = None"
    using that by (simp add: first client_getitem_def)
  have refused: "get_database (MongoDBConnection_init u') n d = (Inl e, MongoDBConnection_init u', d)"
    if "client_raises d (Some u') = Some e"
    using that by (simp add: get_database_def MongoDBConnection_init_def MongoClient_def)
  show ?thesis
    using first cached handle refused by (simp add: later)
qed

theorem get_database_memoizes_witness:
  "client_raises sample_driver (Some ''mongodb://localhost:27017'') = None
   \<and> database_raises sample_driver ''shop'' = None
   \<and> client_raises sample_driver (Some ''http://localhost'') = Some (InvalidURI ''http://localhost'')
   \<and> get_databases [''shop'', ''logs'', ''a.b''] (MongoDBConnection_init ''mongodb://localhost:27017'')
        sample_driver =
       ([Inr (Database 0 ''shop''), Inr (Database 0 ''logs''), Inl (InvalidName ''a.b'')],
        \<lparr>uri = ''mongodb://localhost:27017'', client = Some 0\<rparr>,
        sample_driver\<lparr>clients := [Some ''mongodb://localhost:27017'']\<rparr>)
   \<and> fst (get_database (MongoDBConnection_init ''mongodb://localhost:27017'') ''shop'' sample_driver)
       = Inr (Database 0 ''shop'')
   \<and> get_database (MongoDBConnection_init ''http://localhost'') ''shop'' sample_driver =
       (Inl (InvalidURI ''http://localhost''), MongoDBConnection_init ''http://localhost'', sample_driver)"
  using get_database_memoizes
    [where d = sample_driver and u = "''mongodb://localhost:27017''" and n = "''shop''"
       and ns = "[''logs'', ''a.b'']" and u' = "''http://localhost''"
       and e = "InvalidURI ''http://localhost''"
       and self = "MongoDBConnection_init ''mongodb://localhost:27017''" and c = 0]
  by (simp add: sample_driver_def sample_client_raises_def sample_database_raises_def
      client_getitem_def del: get_databases.simps)

text \<open>
  Claim C9. \<open>get_database\<close> of \<open>DjangoMongoDBConnection\<close> does not look at its argument:
  for any object, any two names give the same result, the same object and the same driver
  state. The call never changes \<open>db_name\<close>, a handle it returns is for the database named by
  \<open>db_name\<close>, and after a successful construction \<open>db_name\<close> is the \<open>DB_NAME\<close> setting read
  by the constructor.
\<close>

theorem dj_get_database_ignores_name:
  "dj_get_database self n1 env d = dj_get_database self n2 env d
   \<and> db_name (fst (snd (dj_get_database self n env d))) = db_name self
   \<and> (db_name self = Some name \<and> fst (dj_get_database self n env d) = Inr db \<longrightarrow>
        db = Database (case dj_client self of None \<Rightarrow> length (clients d) | Some c \<Rightarrow> c) name)
   \<and> (DjangoMongoDBConnection_init u env0 = Inr self0 \<longrightarrow>
        (case db_name self0 of
           None \<Rightarrow> False
         | Some name0 \<Rightarrow> mongodb_setting env0 ''DB_NAME'' = Inr name0))"
proof -
  have same: "dj_get_database self n1 env d = dj_get_database self n2 env d"
    by (simp add: dj_get_database_def)
  have kept: "db_name (fst (snd (dj_get_database self n env d))) = db_name self"
    by (simp add: dj_get_database_def return_database_def MongoClient_def
        split: option.splits sum.splits)
  have named: "db = Database (case dj_client self of None \<Rightarrow> length (clients d) | Some c \<Rightarrow> c) name"
    if "db_name self = Some name" "fst (dj_get_database self n env d) = Inr db"
    using that
    by (auto simp: dj_get_database_def return_database_def MongoClient_def client_getitem_def
        split: option.splits sum.splits)
  have resolved: "(case db_name self0 of None \<Rightarrow> False
         | Some name0 \<Rightarrow> mongodb_setting env0 ''DB_NAME'' = Inr name0)"
    if "DjangoMongoDBConnection_init u env0 = Inr self0"
    using that
    by (auto simp: DjangoMongoDBConnection_init_def get_db_name_def read_db_name_def
        split: if_splits sum.splits option.splits)
  show ?thesis
    using same kept named resolved by blast
qed

theorem dj_get_database_ignores_name_witness:
  "DjangoMongoDBConnection_init None
      \<lparr>django_installed = True,
       DATABASES = [(''mongodb'', [(''URI'', ''mongodb://db:27017''), (''DB_NAME'', ''shop'')])]\<rparr>
     = Inr \<lparr>dj_client = None, dj_uri = None, db_name = Some ''shop''\<rparr>
   \<and> fst (dj_get_database \<lparr>dj_client = None, dj_uri = None, db_name = Some ''shop''\<rparr> ''logs''
        \<lparr>django_installed = True,
         DATABASES = [(''mongodb'', [(''URI'', ''mongodb://db:27017''), (''DB_NAME'', ''shop'')])]\<rparr>
        sample_driver) = Inr (Database 0 ''shop'')
   \<and> mongodb_setting
        \<lparr>django_installed = True,
         DATABASES = [(''mongodb'', [(''URI'', ''mongodb://db:27017''), (''DB_NAME'', ''shop'')])]\<rparr>
        ''DB_NAME'' = Inr ''shop''"
  using dj_get_database_ignores_name
    [where self = "\<lparr>dj_client = None, dj_uri = None, db_name = Some ''shop''\<rparr>"
       and ?self0.0 = "\<lparr>dj_client = None, dj_uri = None, db_name = Some ''shop''\<rparr>"
       and u = None and name = "''shop''" and n = "''logs''" and d = sample_driver
       and db = "Database 0 ''shop''"
       and env = "\<lparr>django_installed = True,
         DATABASES = [(''mongodb'', [(''URI'', ''mongodb://db:27017''), (''DB_NAME'', ''shop'')])]\<rparr>"
       and ?env0.0 = "\<lparr>django_installed = True,
         DATABASES = [(''mongodb'', [(''URI'', ''mongodb://db:27017''), (''DB_NAME'', ''shop'')])]\<rparr>"]
  by (simp add: DjangoMongoDBConnection_init_def get_db_name_def read_db_name_def
      mongodb_setting_def dj_get_database_def return_database_def get_database_uri_def
      MongoClient_def client_getitem_def sample_driver_def sample_client_raises_def
      sample_database_raises_def)

text \<open>
  Claim C3. Without Django, a \<open>DjangoMongoDBConnection\<close> made with a fallback URI is to
  behave like a \<open>MongoDBConnection\<close> made with that URI. The constructor does not get
  that far: \<open>get_db_name\<close> skips the settings and reads \<open>self.db_name\<close>, which no
  statement has assigned yet, so the construction ends in an \<open>AttributeError\<close>, whereas
  the \<open>MongoDBConnection\<close> is made and its first \<open>get_database\<close> gives what the driver gives
  for that URI and the name asked for.
\<close>

theorem django_absent_init_raises:
  "DjangoMongoDBConnection_init (Some fallback) \<lparr>django_installed = False, DATABASES = dbs\<rparr>
     = Inl (AttributeError ''db_name'')
   \<and> fst (get_database (MongoDBConnection_init fallback) n d) =
       (case client_raises d (Some fallback) of
          Some e \<Rightarrow> Inl e
        | None \<Rightarrow> client_getitem (length (clients d)) n d)
   \<and> fst (get_database (MongoDBConnection_init ''mongodb://localhost:27017'') ''shop'' sample_driver)
       = Inr (Database 0 ''shop'')"
  by (simp add: DjangoMongoDBConnection_init_def get_db_name_def read_db_name_def
      get_database_def MongoDBConnection_init_def MongoClient_def client_getitem_def
      sample_driver_def sample_client_raises_def sample_database_raises_def
      split: option.splits)

section \<open>Inserting many documents\<close>

text \<open>
  Claim C4, as stated, has the caller unable to tell partial success from total success.
  The results differ: after a bulk write error that left one of two documents stored the
  method returns \<open>None\<close>, after a complete write it returns the driver's result object.
\<close>

theorem insert_many_partial_vs_total:
  "fst (insert_many \<lparr>collection = partial_writer\<rparr>
         [PDict [(''_id'', PInt 1)], PDict [(''_id'', PInt 2)]] [])
   \<noteq> fst (insert_many \<lparr>collection = total_writer\<rparr>
         [PDict [(''_id'', PInt 1)], PDict [(''_id'', PInt 2)]] [])
   \<and> snd (insert_many \<lparr>collection = partial_writer\<rparr>
         [PDict [(''_id'', PInt 1)], PDict [(''_id'', PInt 2)]] []) = [PDict [(''_id'', PInt 1)]]
   \<and> fst (insert_many \<lparr>collection = partial_writer\<rparr>
         [PDict [(''_id'', PInt 1)], PDict [(''_id'', PInt 2)]] []) = Inr None
   \<and> fst (insert_many \<lparr>collection = total_writer\<rparr>
         [PDict [(''_id'', PInt 1)], PDict [(''_id'', PInt 2)]] [])
       = Inr (Some \<lparr>inserted_ids = [PDict [(''_id'', PInt 1)], PDict [(''_id'', PInt 2)]],
                     acknowledged = True\<rparr>)"
  by (simp add: insert_many_def partial_writer_def total_writer_def)

text \<open>
  Claim C4, amended. \<open>insert_many\<close> passes the documents to the collection's
  \<open>insert_many\<close> and leaves the database in the state the driver left it in. The driver's
  result is returned unchanged; a \<open>BulkWriteError\<close> is caught and dropped and the method
  returns \<open>None\<close>; any other exception propagates unchanged. The caller cannot tell one bulk
  write failure from another, since each of them gives \<open>None\<close>, but can tell a bulk write
  failure from a complete write, whose result is never \<open>None\<close>.
\<close>

theorem insert_many_outcomes:
  "snd (insert_many self documents s) = snd (coll_insert_many (collection self) documents s)
   \<and> (coll_insert_many (collection r1) docs1 s1 = (Inr res, t1) \<longrightarrow>
        insert_many r1 docs1 s1 = (Inr (Some res), t1))
   \<and> (coll_insert_many (collection r2) docs2 s2 = (Inl (BulkWriteError bwe), t2) \<longrightarrow>
        insert_many r2 docs2 s2 = (Inr None, t2))
   \<and> (coll_insert_many (collection r3) docs3 s3 = (Inl e, t3) \<and> \<not> is_bulk_write_error e \<longrightarrow>
        insert_many r3 docs3 s3 = (Inl e, t3))
   \<and> (fst (coll_insert_many (collection r4) docs4 s4) = Inl (BulkWriteError b4)
        \<and> fst (coll_insert_many (collection r5) docs5 s5) = Inl (BulkWriteError b5) \<longrightarrow>
        fst (insert_many r4 docs4 s4) = fst (insert_many r5 docs5 s5))
   \<and> (fst (coll_insert_many (collection r6) docs6 s6) = Inr res6 \<longrightarrow>
        fst (insert_many r6 docs6 s6) \<noteq> Inr None)"
proof -
  have state: "snd (insert_many self documents s) = snd (coll_insert_many (collection self) documents s)"
    by (simp add: insert_many_def split: prod.splits sum.splits exn.splits)
  have other: "insert_many r3 docs3 s3 = (Inl e, t3)"
    if "coll_insert_many (collection r3) docs3 s3 = (Inl e, t3)" "\<not> is_bulk_write_error e"
    using that by (cases e) (simp_all add: insert_many_def)
  have bulk: "fst (insert_many r docs s) = Inr None"
    if "fst (coll_insert_many (collection r) docs s) = Inl (BulkWriteError b)"
    for r :: "'x InsertRepository" and docs s b
    using that by (cases "coll_insert_many (collection r) docs s") (simp add: insert_many_def)
  have ok: "fst (insert_many r6 docs6 s6) \<noteq> Inr None"
    if "fst (coll_insert_many (collection r6) docs6 s6) = Inr res6"
    using that by (cases "coll_insert_many (collection r6) docs6 s6") (simp add: insert_many_def)
  show ?thesis
    using state other bulk [of r4 docs4 s4 b4] bulk [of r5 docs5 s5 b5] ok
    by (simp add: insert_many_def)
qed

theorem insert_many_outcomes_witness:
  "coll_insert_many total_writer [PDict [(''_id'', PInt 1)]] [] =
     (Inr \<lparr>inserted_ids = [PDict [(''_id'', PInt 1)]], acknowledged = True\<rparr>, [PDict [(''_id'', PInt 1)]])
   \<and> insert_many \<lparr>collection = total_writer\<rparr> [PDict [(''_id'', PInt 1)]] [] =
     (Inr (Some \<lparr>inserted_ids = [PDict [(''_id'', PInt 1)]], acknowledged = True\<rparr>), [PDict [(''_id'', PInt 1)]])
   \<and> coll_insert_many partial_writer [PDict [(''_id'', PInt 1)], PDict [(''_id'', PInt 1)]] [] =
     (Inl (BulkWriteError (PInt 1)), [PDict [(''_id'', PInt 1)]])
   \<and> insert_many \<lparr>collection = partial_writer\<rparr> [PDict [(''_id'', PInt 1)], PDict [(''_id'', PInt 1)]] [] =
     (Inr None, [PDict [(''_id'', PInt 1)]])
   \<and> coll_insert_many failing_writer [PDict [(''_id'', PInt 1)]] [] = (Inl (DriverError ''AutoReconnect''), [])
   \<and> \<not> is_bulk_write_error (DriverError ''AutoReconnect'')
   \<and> insert_many \<lparr>collection = failing_writer\<rparr> [PDict [(''_id'', PInt 1)]] [] =
     (Inl (DriverError ''AutoReconnect''), [])
   \<and> fst (insert_many \<lparr>collection = partial_writer\<rparr> [PDict [(''_id'', PInt 1)]] []) =
     fst (insert_many \<lparr>collection = partial_writer\<rparr> [] [PDict [(''_id'', PInt 7)]])
   \<and> fst (insert_many \<lparr>collection = total_writer\<rparr> [PDict [(''_id'', PInt 1)]] []) \<noteq> Inr None"
  using insert_many_outcomes
    [where self = "\<lparr>collection = total_writer\<rparr>" and documents = "[]" and s = "[]"
       and ?r1.0 = "\<lparr>collection = total_writer\<rparr>" and ?docs1.0 = "[PDict [(''_id'', PInt 1)]]" and ?s1.0 = "[]"
       and res = "\<lparr>inserted_ids = [PDict [(''_id'', PInt 1)]], acknowledged = True\<rparr>"
       and ?t1.0 = "[PDict [(''_id'', PInt 1)]]"
       and ?r2.0 = "\<lparr>collection = partial_writer\<rparr>"
       and ?docs2.0 = "[PDict [(''_id'', PInt 1)], PDict [(''_id'', PInt 1)]]" and ?s2.0 = "[]"
       and bwe = "PInt 1" and ?t2.0 = "[PDict [(''_id'', PInt 1)]]"
       and ?r3.0 = "\<lparr>collection = failing_writer\<rparr>" and ?docs3.0 = "[PDict [(''_id'', PInt 1)]]"
       and ?s3.0 = "[]" and e = "DriverError ''AutoReconnect''" and ?t3.0 = "[]"
       and ?r4.0 = "\<lparr>collection = partial_writer\<rparr>" and ?docs4.0 = "[PDict [(''_id'', PInt 1)]]"
       and ?s4.0 = "[]" and ?b4.0 = "PInt 1"
       and ?r5.0 = "\<lparr>collection = partial_writer\<rparr>" and ?docs5.0 = "[]"
       and ?s5.0 = "[PDict [(''_id'', PInt 7)]]" and ?b5.0 = "PInt 1"
       and ?r6.0 = "\<lparr>collection = total_writer\<rparr>" and ?docs6.0 = "[PDict [(''_id'', PInt 1)]]"
       and ?s6.0 = "[]" and ?res6.0 = "\<lparr>inserted_ids = [PDict [(''_id'', PInt 1)]], acknowledged = True\<rparr>"]
  by (simp add: partial_writer_def total_writer_def failing_writer_def)

section \<open>The pipeline builder: \<open>group\<close>\<close>

lemma group_field_items: "group_field x ident = dict_update ident (group_items x)"
  by (cases x) (simp_all add: dict_update_def)

lemma fold_group_field:
  "fold group_field groupby ident = dict_update ident (concat (map group_items groupby))"
  by (induction groupby arbitrary: ident)
    (simp_all add: dict_update_Nil dict_update_append group_field_items)

lemma group_ident_items: "group_ident groupby = dict_of (concat (map group_items groupby))"
  by (simp add: group_ident_def dict_of_def fold_group_field)

lemma map_of_rev_absent: "k \<notin> fst ` set kw \<Longrightarrow> map_of (rev kw) k = None"
  by (simp add: map_of_eq_None_iff)

text \<open>
  Claim C2. \<open>group\<close> appends a single \<open>{"$group": g}\<close> stage. The identifier mapping is
  the dictionary of the items of \<open>groupby\<close> taken in order, a plain field name \<open>f\<close> giving the
  item \<open>f: "$f"\<close> and a dict its own items: its keys stand in the order supplied and a
  repeated name keeps the value supplied last; for pairwise distinct plain field names it
  maps each \<open>f\<close> to \<open>"$f"\<close> in the order supplied. The accumulator keywords are assigned to
  \<open>g\<close> after the identifier mapping was stored under \<open>_id\<close>: they follow \<open>_id\<close> as sibling keys,
  whatever the keys inside the identifier mapping are, unless names collide, that is, unless
  a keyword is itself named \<open>_id\<close>, in which case its value is what \<open>g["_id"]\<close> holds.
  \<open>group(["a", "b"], total=expr)\<close> yields
  \<open>{"$group": {"_id": {"a": "$a", "b": "$b"}, "total": expr}}\<close>.
\<close>

theorem group_stage_shape:
  "built b (snd (group b groupby kwargs h)) =
     built b h @ [PDict [(''$group'', PDict (group_stage groupby kwargs))]]
   \<and> (''_id'' \<notin> fst ` set kw1 \<longrightarrow>
        getitem (group_stage groupby kw1) ''_id'' = Some (PDict (group_ident groupby)))
   \<and> (''_id'' \<notin> fst ` set kw1 \<and> distinct (map fst kw1) \<longrightarrow>
        group_stage groupby kw1 = (''_id'', PDict (group_ident groupby)) # kw1)
   \<and> (''_id'' \<in> fst ` set kw2 \<longrightarrow>
        getitem (group_stage groupby kw2) ''_id'' = map_of (rev kw2) ''_id'')
   \<and> group_ident groupby = dict_of (concat (map group_items groupby))
   \<and> map fst (group_ident groupby) = rev (remdups (rev (map fst (concat (map group_items groupby)))))
   \<and> map_of (group_ident groupby) = map_of (rev (concat (map group_items groupby)))
   \<and> (distinct fs \<longrightarrow> group_ident (map PStr fs) = map (\<lambda>f. (f, PStr (CHR ''$'' # f))) fs)
   \<and> group_stage [PStr ''a'', PStr ''b''] [(''total'', expr)] =
       [(''_id'', PDict [(''a'', PStr ''$a''), (''b'', PStr ''$b'')]), (''total'', expr)]"
proof -
  have appended: "built b (snd (group b groupby kwargs h)) =
     built b h @ [PDict [(''$group'', PDict (group_stage groupby kwargs))]]"
    by (simp add: group_def built_cells list_append_def)
  have ident_kept: "getitem (group_stage groupby kw1) ''_id'' = Some (PDict (group_ident groupby))"
    if "''_id'' \<notin> fst ` set kw1"
    using that
    by (simp add: getitem_def group_stage_def map_of_dict_update map_add_def
        map_of_rev_absent)
  have siblings: "group_stage groupby kw1 = (''_id'', PDict (group_ident groupby)) # kw1"
    if "''_id'' \<notin> fst ` set kw1" "distinct (map fst kw1)"
    using that dict_update_fresh [of kw1 "[(''_id'', PDict (group_ident groupby))]"]
    by (simp add: group_stage_def)
  have replaced: "getitem (group_stage groupby kw2) ''_id'' = map_of (rev kw2) ''_id''"
    if "''_id'' \<in> fst ` set kw2"
  proof -
    from that obtain v where "map_of (rev kw2) ''_id'' = Some v"
      by (cases "map_of (rev kw2) ''_id''") (auto simp: map_of_eq_None_iff)
    then show ?thesis
      by (simp add: getitem_def group_stage_def map_of_dict_update map_add_def)
  qed
  have plain: "group_ident (map PStr fs) = map (\<lambda>f. (f, PStr (CHR ''$'' # f))) fs"
    if "distinct fs"
  proof -
    have items: "concat (map group_items (map PStr fs)) = map (\<lambda>f. (f, PStr (CHR ''$'' # f))) fs"
      by (induction fs) simp_all
    have "map fst (map (\<lambda>f. (f, PStr (CHR ''$'' # f))) fs) = fs"
      by (simp add: comp_def)
    with that show ?thesis
      by (simp add: group_ident_items items dict_of_distinct del: map_map)
  qed
  have example: "group_stage [PStr ''a'', PStr ''b''] [(''total'', expr)] =
       [(''_id'', PDict [(''a'', PStr ''$a''), (''b'', PStr ''$b'')]), (''total'', expr)]"
    by (simp add: group_stage_def group_ident_def dict_update_def)
  show ?thesis
    using appended ident_kept siblings replaced plain example
    by (simp add: group_ident_items keys_dict_of map_of_dict_of)
qed

theorem group_stage_shape_witness:
  "''_id'' \<notin> fst ` set [(''total'', PDict [(''$sum'', PStr ''$amount'')])]
   \<and> distinct (map fst [(''total'', PDict [(''$sum'', PStr ''$amount'')])])
   \<and> group_stage [PStr ''category'', PDict [(''month'', PDict [(''$month'', PStr ''$timestamp'')])]]
        [(''total'', PDict [(''$sum'', PStr ''$amount'')])] =
       [(''_id'', PDict [(''category'', PStr ''$category''),
                        (''month'', PDict [(''$month'', PStr ''$timestamp'')])]),
        (''total'', PDict [(''$sum'', PStr ''$amount'')])]
   \<and> ''_id'' \<in> fst ` set [(''_id'', PInt 1)]
   \<and> getitem (group_stage [PStr ''category'', PDict [(''month'', PDict [(''$month'', PStr ''$timestamp'')])]]
        [(''_id'', PInt 1)]) ''_id'' = Some (PInt 1)
   \<and> distinct [''a'', ''b'']
   \<and> group_ident (map PStr [''a'', ''b'']) = [(''a'', PStr ''$a''), (''b'', PStr ''$b'')]"
  using group_stage_shape
    [where groupby = "[PStr ''category'', PDict [(''month'', PDict [(''$month'', PStr ''$timestamp'')])]]"
       and ?kw1.0 = "[(''total'', PDict [(''$sum'', PStr ''$amount'')])]"
       and ?kw2.0 = "[(''_id'', PInt 1)]" and fs = "[''a'', ''b'']"
       and b = "\<lparr>pipeline = 0\<rparr>" and h = empty_heap and kwargs = "[]" and expr = PNone]
  by (simp add: group_ident_def)

end
